theory Spec2Isabelle
  imports Complex_Main "HOL-Library.AList" "HOL-Library.Sublist"
begin

section \<open>Shared modelling conventions\<close>

text \<open>
  The two source files, \<^verbatim>\<open>security_monitor.py\<close> and \<^verbatim>\<open>main.py\<close>, are embedded as
  state-passing functions.

  \<^item> Python \<^verbatim>\<open>float\<close> values (timestamps, risk scores, features) are modelled as exact
    \<^typ>\<open>real\<close> numbers; Python \<^verbatim>\<open>int\<close> values as \<^typ>\<open>int\<close>.
  \<^item> Python \<^verbatim>\<open>str\<close> values are modelled as \<^typ>\<open>string\<close>; one character stands for one
    code point, and \<^verbatim>\<open>str.lower\<close> is modelled on the ASCII letters.
  \<^item> \<^verbatim>\<open>time.time()\<close> is an input: every operation that reads the clock takes the reading
    \<open>current_time\<close> as an argument.
  \<^item> A \<^verbatim>\<open>dict\<close> / \<^verbatim>\<open>defaultdict\<close> is an association list in insertion order; a
    \<^verbatim>\<open>deque\<close> is a list whose head is the left end.
  \<^item> The scikit-learn estimators are not part of the repository. They are parameters:
    a record of operations over an abstract estimator state. An operation that can raise
    returns \<open>None\<close> (or a failure flag) in that case.
  \<^item> Logging, the latency histogram and the gauges only report; they are left out. The
    anomaly counter is kept.
\<close>

text \<open>\<^verbatim>\<open>d.get(key, default)\<close> on a dictionary entry that may be absent.\<close>

definition dict_get :: "'a option \<Rightarrow> 'a \<Rightarrow> 'a" where
  "dict_get entry dflt = (case entry of None \<Rightarrow> dflt | Some v \<Rightarrow> v)"

text \<open>Reading \<^verbatim>\<open>d[k]\<close> of a \<^verbatim>\<open>defaultdict\<close> whose factory yields \<open>dflt\<close>.\<close>

definition dd_get :: "('k \<times> 'v) list \<Rightarrow> 'k \<Rightarrow> 'v \<Rightarrow> 'v" where
  "dd_get d k dflt = (case map_of d k of None \<Rightarrow> dflt | Some v \<Rightarrow> v)"

text \<open>\<^verbatim>\<open>str.lower()\<close>, on ASCII letters.\<close>

definition lower_char :: "char \<Rightarrow> char" where
  "lower_char c =
     (let n = (of_char c :: nat) in if 65 \<le> n \<and> n \<le> 90 then char_of (n + 32) else c)"

definition lower :: "string \<Rightarrow> string" where
  "lower s = map lower_char s"

text \<open>The substring test \<^verbatim>\<open>needle in haystack\<close>.\<close>

fun is_in :: "string \<Rightarrow> string \<Rightarrow> bool" where
  "is_in needle [] = (needle = [])"
| "is_in needle (c # cs) = (prefix needle (c # cs) \<or> is_in needle cs)"

section \<open>The security monitor (\<^verbatim>\<open>security_monitor.py\<close>)\<close>

subsection \<open>Data\<close>

text \<open>
  The operations of \<^verbatim>\<open>sklearn.ensemble.IsolationForest\<close> that the repository calls, over an
  abstract estimator state \<open>'m\<close>. \<open>fit\<close> mutates the estimator in place and may raise:
  it returns the estimator afterwards and whether it completed. \<open>decision_function\<close> and
  \<open>predict\<close> are applied to a single row and return \<open>None\<close> when they raise.
\<close>

record 'm IsolationForest_ops =
  fit :: "'m \<Rightarrow> real list list \<Rightarrow> 'm \<times> bool"
  decision_function :: "'m \<Rightarrow> real list \<Rightarrow> real option"
  predict :: "'m \<Rightarrow> real list \<Rightarrow> int option"

text \<open>
  The attributes of \<^verbatim>\<open>SecurityMonitor\<close> that are assigned after construction.
  \<open>error_counts\<close> is created lazily (\<^verbatim>\<open>hasattr\<close>), hence the option.
\<close>

record 'm SecurityMonitor =
  ip_request_counts :: "(string \<times> int) list"
  ip_request_times :: "(string \<times> real list) list"
  user_agents :: "(string \<times> int) list"
  suspicious_patterns :: "string list"
  security_model :: 'm
  is_trained :: bool
  error_counts :: "(string \<times> int) list option"

text \<open>The thresholds and the deny list set in \<^verbatim>\<open>__init__\<close>; nothing reassigns them.\<close>

definition max_requests_per_minute :: int where
  "max_requests_per_minute = 100"

definition max_requests_per_ip_per_minute :: int where
  "max_requests_per_ip_per_minute = 50"

definition suspicious_user_agents :: "string list" where
  "suspicious_user_agents =
     [''sqlmap'', ''nmap'', ''nikto'', ''dirb'', ''gobuster'', ''wfuzz'',
      ''burp'', ''zap'', ''scanner'', ''bot'', ''crawler'', ''spider'']"

definition suspicious_endpoints :: "string list" where
  "suspicious_endpoints =
     [''/admin'', ''/wp-admin'', ''/phpmyadmin'', ''/.env'', ''/config'',
      ''/api/v1/admin'', ''/internal'', ''/debug'', ''/test'']"

definition allowed_methods :: "string list" where
  "allowed_methods = [''GET'', ''POST'', ''PUT'', ''DELETE'', ''PATCH'']"

text \<open>\<^verbatim>\<open>SecurityMonitor.__init__\<close>, given the freshly constructed estimator.\<close>

definition init_monitor :: "'m \<Rightarrow> 'm SecurityMonitor" where
  "init_monitor m =
     \<lparr>ip_request_counts = [], ip_request_times = [], user_agents = [],
      suspicious_patterns = [], security_model = m, is_trained = False,
      error_counts = None\<rparr>"

text \<open>The request dictionary; every key may be absent (\<^verbatim>\<open>request_data.get\<close>).\<close>

record request_data =
  rq_client_ip :: "string option"
  rq_user_agent :: "string option"
  rq_endpoint :: "string option"
  rq_method :: "string option"
  rq_status_code :: "int option"

text \<open>
  One constructor per message template appended to \<^verbatim>\<open>threats\<close>, with the values the
  f-string interpolates.
\<close>

datatype threat =
    SuspiciousUserAgent string
  | HighRequestRate int
  | SuspiciousEndpoint string
  | UnusualMethod string
  | HighErrorRate string string
  | MLAnomaly real

text \<open>
  The dictionary returned by \<^verbatim>\<open>analyze_request\<close>; the key \<^verbatim>\<open>method\<close> is the field
  \<open>http_method\<close>.
\<close>

record assessment =
  threats :: "threat list"
  risk_score :: real
  is_threat :: bool
  client_ip :: string
  timestamp :: real
  user_agent :: string
  endpoint :: string
  http_method :: string
  status_code :: int

text \<open>The local variables \<^verbatim>\<open>threats\<close> and \<^verbatim>\<open>risk_score\<close>, threaded through the rules.\<close>

type_synonym acc = "threat list \<times> real"

subsection \<open>\<^verbatim>\<open>analyze_request\<close>\<close>

text \<open>Lines 49-51: pop from the left while the oldest entry is older than \<open>minute_ago\<close>.\<close>

fun clean_old :: "real \<Rightarrow> real list \<Rightarrow> real list" where
  "clean_old minute_ago [] = []"
| "clean_old minute_ago (x # xs) =
     (if x < minute_ago then clean_old minute_ago xs else x # xs)"

text \<open>Lines 55-59: the loop over the deny list, leaving at the first match.\<close>

fun check_user_agent :: "string list \<Rightarrow> string \<Rightarrow> acc \<Rightarrow> acc" where
  "check_user_agent [] user_agent_lower a = a"
| "check_user_agent (suspicious_ua # rest) user_agent_lower a =
     (if is_in suspicious_ua user_agent_lower
      then (fst a @ [SuspiciousUserAgent suspicious_ua], snd a + 0.3)
      else check_user_agent rest user_agent_lower a)"

text \<open>Lines 62-65.\<close>

definition check_request_rate :: "int \<Rightarrow> acc \<Rightarrow> acc" where
  "check_request_rate recent_requests a =
     (if recent_requests > max_requests_per_ip_per_minute
      then (fst a @ [HighRequestRate recent_requests], snd a + 0.4)
      else a)"

text \<open>Lines 72-76: the message carries the endpoint as given, the test its lower case.\<close>

fun check_endpoint :: "string list \<Rightarrow> string \<Rightarrow> acc \<Rightarrow> acc" where
  "check_endpoint [] ep a = a"
| "check_endpoint (suspicious_endpoint # rest) ep a =
     (if is_in suspicious_endpoint (lower ep)
      then (fst a @ [SuspiciousEndpoint ep], snd a + 0.2)
      else check_endpoint rest ep a)"

text \<open>Lines 79-81.\<close>

definition check_method :: "string \<Rightarrow> acc \<Rightarrow> acc" where
  "check_method m a =
     (if m \<notin> set allowed_methods then (fst a @ [UnusualMethod m], snd a + 0.1) else a)"

text \<open>
  Lines 84-92: returns the error counters afterwards and the accumulator. The key is the
  string \<^verbatim>\<open>f"{client_ip}:{endpoint}"\<close>.
\<close>

definition check_errors ::
  "(string \<times> int) list option \<Rightarrow> string \<Rightarrow> string \<Rightarrow> int \<Rightarrow> acc
     \<Rightarrow> (string \<times> int) list option \<times> acc" where
  "check_errors ec ip ep code a =
     (if code \<ge> 400 then
        (let error_key = ip @ '':'' @ ep;
             counts = (case ec of None \<Rightarrow> [] | Some d \<Rightarrow> d);
             n = dd_get counts error_key 0 + 1;
             counts' = AList.update error_key n counts
         in (Some counts',
             if n > 10 then (fst a @ [HighErrorRate ip ep], snd a + 0.3) else a))
      else (ec, a))"

text \<open>
  Lines 96-112, the body of the guarded block: the row of features is scored; an
  exception of either estimator call leaves the accumulator as it was.
\<close>

definition ml_stage :: "'m IsolationForest_ops \<Rightarrow> 'm \<Rightarrow> real list \<Rightarrow> acc \<Rightarrow> acc" where
  "ml_stage ops model features a =
     (case decision_function ops model features of
        None \<Rightarrow> a
      | Some anomaly_score \<Rightarrow>
          (case predict ops model features of
             None \<Rightarrow> a
           | Some label \<Rightarrow>
               if label = - 1 then (fst a @ [MLAnomaly anomaly_score], snd a + 0.5) else a))"

text \<open>The window of the client after lines 44-51.\<close>

definition recorded_window :: "'m SecurityMonitor \<Rightarrow> string \<Rightarrow> real \<Rightarrow> real list" where
  "recorded_window s ip current_time =
     clean_old (current_time - 60) (dd_get (ip_request_times s) ip [] @ [current_time])"

text \<open>The accumulator after the five rules (lines 53-92), and the error counters.\<close>

definition run_rules ::
  "'m SecurityMonitor \<Rightarrow> string \<Rightarrow> string \<Rightarrow> string \<Rightarrow> string \<Rightarrow> int \<Rightarrow> int
     \<Rightarrow> (string \<times> int) list option \<times> acc" where
  "run_rules s ip ua ep m code recent_requests =
     (let a1 = check_user_agent suspicious_user_agents (lower ua) ([], 0);
          a2 = check_request_rate recent_requests a1;
          a3 = check_endpoint suspicious_endpoints ep a2;
          a4 = check_method m a3
      in check_errors (error_counts s) ip ep code a4)"

definition analyze_request ::
  "'m IsolationForest_ops \<Rightarrow> 'm SecurityMonitor \<Rightarrow> request_data \<Rightarrow> real
     \<Rightarrow> assessment \<times> 'm SecurityMonitor" where
  "analyze_request ops s rd current_time =
     (let ip = dict_get (rq_client_ip rd) ''unknown'';
          ua = dict_get (rq_user_agent rd) '''';
          ep = dict_get (rq_endpoint rd) '''';
          m = dict_get (rq_method rd) ''GET'';
          code = dict_get (rq_status_code rd) 200;
          counts' = AList.update ip (dd_get (ip_request_counts s) ip 0 + 1)
                      (ip_request_counts s);
          window = recorded_window s ip current_time;
          times' = AList.update ip window (ip_request_times s);
          recent_requests = int (length window);
          (ec', a5) = run_rules s ip ua ep m code recent_requests;
          a6 = (if is_trained s \<and> recent_requests > 0
                then ml_stage ops (security_model s)
                       [real_of_int recent_requests, real (length ua), real (length ep),
                        real_of_int code, snd a5] a5
                else a5)
      in (\<lparr>threats = fst a6, risk_score = min (snd a6) 1.0, is_threat = snd a6 > 0.5,
            client_ip = ip, timestamp = current_time, user_agent = ua, endpoint = ep,
            http_method = m, status_code = code\<rparr>,
          s\<lparr>ip_request_counts := counts', ip_request_times := times',
            error_counts := ec'\<rparr>))"

subsection \<open>\<^verbatim>\<open>train_security_model\<close>\<close>

text \<open>One historical sample; every key may be absent (\<^verbatim>\<open>data.get\<close>).\<close>

record historical_sample =
  h_requests_per_minute :: "real option"
  h_user_agent_length :: "real option"
  h_endpoint_length :: "real option"
  h_status_code :: "real option"
  h_risk_score :: "real option"

definition feature_vector :: "historical_sample \<Rightarrow> real list" where
  "feature_vector d =
     [dict_get (h_requests_per_minute d) 0, dict_get (h_user_agent_length d) 0,
      dict_get (h_endpoint_length d) 0, dict_get (h_status_code d) 200,
      dict_get (h_risk_score d) 0.0]"

definition train_security_model ::
  "'m IsolationForest_ops \<Rightarrow> 'm SecurityMonitor \<Rightarrow> historical_sample list
     \<Rightarrow> bool \<times> 'm SecurityMonitor" where
  "train_security_model ops s historical_data =
     (let features = map feature_vector historical_data in
      if length features < 10 then (False, s)
      else (case fit ops (security_model s) features of
              (model', completed) \<Rightarrow>
                if completed then (True, s\<lparr>security_model := model', is_trained := True\<rparr>)
                else (False, s\<lparr>security_model := model'\<rparr>)))"

subsection \<open>\<^verbatim>\<open>get_security_summary\<close> and \<^verbatim>\<open>reset_counters\<close>\<close>

record summary =
  active_ips :: nat
  high_risk_ips :: nat
  total_requests_tracked :: int
  model_trained :: bool
  suspicious_patterns_count :: nat

definition get_security_summary :: "'m SecurityMonitor \<Rightarrow> real \<Rightarrow> summary" where
  "get_security_summary s current_time =
     (let minute_ago = current_time - 60 in
      \<lparr>active_ips =
         length (filter (\<lambda>times. times \<noteq> [] \<and> last times > minute_ago)
                   (map snd (ip_request_times s))),
       high_risk_ips =
         length (filter (\<lambda>(ip, times). int (length times) > max_requests_per_ip_per_minute)
                   (ip_request_times s)),
       total_requests_tracked = sum_list (map snd (ip_request_counts s)),
       model_trained = is_trained s,
       suspicious_patterns_count = length (suspicious_patterns s)\<rparr>)"

definition reset_counters :: "'m SecurityMonitor \<Rightarrow> 'm SecurityMonitor" where
  "reset_counters s =
     s\<lparr>ip_request_counts := [],
       ip_request_times := map (\<lambda>(ip, times). (ip, [])) (ip_request_times s),
       user_agents := [],
       suspicious_patterns := [],
       error_counts := (case error_counts s of None \<Rightarrow> None | Some d \<Rightarrow> Some [])\<rparr>"

section \<open>The metrics anomaly detector (\<^verbatim>\<open>main.py\<close>)\<close>

subsection \<open>Data\<close>



record AnomalyResult =
  is_anomaly :: bool
  anomaly_score :: real
  metrics :: "(string \<times> real) list"
  ar_timestamp :: real






subsection \<open>\<^verbatim>\<open>train_model\<close> and \<^verbatim>\<open>detect_anomaly\<close>\<close>



section \<open>Call sequences\<close>

text \<open>
  The state-changing calls a client of the monitor can make, and the state they lead to
  from a starting state. \<open>clock_readings\<close> lists the clock values the calls read, in
  call order.
\<close>

datatype monitor_call =
    Analyze request_data real
  | Train "historical_sample list"
  | Reset

fun monitor_step ::
  "'m IsolationForest_ops \<Rightarrow> 'm SecurityMonitor \<Rightarrow> monitor_call \<Rightarrow> 'm SecurityMonitor" where
  "monitor_step ops s (Analyze rd t) = snd (analyze_request ops s rd t)"
| "monitor_step ops s (Train historical_data) = snd (train_security_model ops s historical_data)"
| "monitor_step ops s Reset = reset_counters s"

fun run_monitor ::
  "'m IsolationForest_ops \<Rightarrow> 'm SecurityMonitor \<Rightarrow> monitor_call list \<Rightarrow> 'm SecurityMonitor" where
  "run_monitor ops s [] = s"
| "run_monitor ops s (c # cs) = run_monitor ops (monitor_step ops s c) cs"

fun clock_readings :: "monitor_call list \<Rightarrow> real list" where
  "clock_readings [] = []"
| "clock_readings (Analyze rd t # cs) = t # clock_readings cs"
| "clock_readings (c # cs) = clock_readings cs"






section \<open>The specification's reading of the rules\<close>

text \<open>
  Section 4.4 of the specification lists six rules, each with its own contribution. The
  definitions below follow that wording, one rule at a time and independent of each
  other, to be compared with the accumulator the code threads through
  \<^const>\<open>analyze_request\<close>.
\<close>

definition spec_rule1 :: "string \<Rightarrow> acc" where
  "spec_rule1 ua =
     (case find (\<lambda>p. is_in p (lower ua)) suspicious_user_agents of
        None \<Rightarrow> ([], 0)
      | Some p \<Rightarrow> ([SuspiciousUserAgent p], 0.3))"

definition spec_rule2 :: "int \<Rightarrow> acc" where
  "spec_rule2 window_size =
     (if window_size > 50 then ([HighRequestRate window_size], 0.4) else ([], 0))"

definition spec_rule3 :: "string \<Rightarrow> acc" where
  "spec_rule3 ep =
     (if list_ex (\<lambda>p. is_in p (lower ep)) suspicious_endpoints
      then ([SuspiciousEndpoint ep], 0.2) else ([], 0))"

definition spec_rule4 :: "string \<Rightarrow> acc" where
  "spec_rule4 m =
     (if m \<in> {''GET'', ''POST'', ''PUT'', ''DELETE'', ''PATCH''} then ([], 0)
      else ([UnusualMethod m], 0.1))"

definition spec_rule5 :: "'m SecurityMonitor \<Rightarrow> string \<Rightarrow> string \<Rightarrow> int \<Rightarrow> acc" where
  "spec_rule5 s ip ep code =
     (if code \<ge> 400 \<and>
         dd_get (case error_counts s of None \<Rightarrow> [] | Some d \<Rightarrow> d) (ip @ '':'' @ ep) 0 + 1 > 10
      then ([HighErrorRate ip ep], 0.3) else ([], 0))"

definition spec_rules_threats ::
  "'m SecurityMonitor \<Rightarrow> string \<Rightarrow> string \<Rightarrow> string \<Rightarrow> string \<Rightarrow> int \<Rightarrow> int
     \<Rightarrow> threat list" where
  "spec_rules_threats s ip ua ep m code n =
     fst (spec_rule1 ua) @ fst (spec_rule2 n) @ fst (spec_rule3 ep) @ fst (spec_rule4 m) @
     fst (spec_rule5 s ip ep code)"

definition spec_rules_score ::
  "'m SecurityMonitor \<Rightarrow> string \<Rightarrow> string \<Rightarrow> string \<Rightarrow> string \<Rightarrow> int \<Rightarrow> int \<Rightarrow> real" where
  "spec_rules_score s ip ua ep m code n =
     snd (spec_rule1 ua) + snd (spec_rule2 n) + snd (spec_rule3 ep) + snd (spec_rule4 m) +
     snd (spec_rule5 s ip ep code)"

text \<open>Rule 6: what the model stage contributes for a feature row.\<close>

definition spec_ml :: "'m IsolationForest_ops \<Rightarrow> 'm \<Rightarrow> real list \<Rightarrow> acc" where
  "spec_ml ops model fv =
     (case decision_function ops model fv of
        None \<Rightarrow> ([], 0)
      | Some sc \<Rightarrow>
          (case predict ops model fv of
             None \<Rightarrow> ([], 0)
           | Some label \<Rightarrow> if label = - 1 then ([MLAnomaly sc], 0.5) else ([], 0)))"


text \<open>The contribution each kind of threat entry is appended with.\<close>

fun weight :: "threat \<Rightarrow> real" where
  "weight (SuspiciousUserAgent p) = 0.3"
| "weight (HighRequestRate n) = 0.4"
| "weight (SuspiciousEndpoint e) = 0.2"
| "weight (UnusualMethod m) = 0.1"
| "weight (HighErrorRate i e) = 0.3"
| "weight (MLAnomaly sc) = 0.5"

text \<open>
  Section 4.3 reads the high-activity count over windows pruned to the trailing 60
  seconds as of the query time.
\<close>

definition spec_high_activity_count :: "'m SecurityMonitor \<Rightarrow> real \<Rightarrow> nat" where
  "spec_high_activity_count s now =
     length (filter (\<lambda>(ip, times). 50 < length (clean_old (now - 60) times))
               (ip_request_times s))"


section \<open>Invariants\<close>

text \<open>The accumulator is the sum of the contributions of the entries appended so far.\<close>

definition balanced :: "acc \<Rightarrow> bool" where
  "balanced a = (snd a = sum_list (map weight (fst a)))"

text \<open>Every stored window is ascending and holds no reading later than \<open>T\<close>.\<close>

definition windows_bounded :: "real \<Rightarrow> 'm SecurityMonitor \<Rightarrow> bool" where
  "windows_bounded T s =
     (\<forall>(ip, w) \<in> set (ip_request_times s). sorted w \<and> (\<forall>x \<in> set w. x \<le> T))"


text \<open>The accumulator at the end of \<^const>\<open>analyze_request\<close>, before the cap.\<close>

definition final_acc ::
  "'m IsolationForest_ops \<Rightarrow> 'm SecurityMonitor \<Rightarrow> request_data \<Rightarrow> real \<Rightarrow> acc" where
  "final_acc ops s rd t =
     (let ip = dict_get (rq_client_ip rd) ''unknown'';
          ua = dict_get (rq_user_agent rd) '''';
          ep = dict_get (rq_endpoint rd) '''';
          m = dict_get (rq_method rd) ''GET'';
          code = dict_get (rq_status_code rd) 200;
          n = int (length (recorded_window s ip t));
          a5 = snd (run_rules s ip ua ep m code n)
      in if is_trained s \<and> n > 0
         then ml_stage ops (security_model s)
                [real_of_int n, real (length ua), real (length ep), real_of_int code, snd a5] a5
         else a5)"

section \<open>Concrete estimators, requests and states\<close>

text \<open>
  A small estimator with the interface of the isolation forest, used where a theorem is
  instantiated: its state is a threshold, fitting sets the threshold to the largest row
  sum of the batch, and a row is an outlier when its sum exceeds the threshold. As with
  the library's estimator, \<open>predict\<close> answers \<open>-1\<close> exactly when \<open>decision_function\<close>
  is negative.
\<close>

definition envelope_ops :: "real IsolationForest_ops" where
  "envelope_ops =
     \<lparr>fit = (\<lambda>m X. (foldr max (map sum_list X) 0, True)),
      decision_function = (\<lambda>m x. Some (m - sum_list x)),
      predict = (\<lambda>m x. Some (if m - sum_list x < 0 then - 1 else 1))\<rparr>"


definition login_request :: request_data where
  "login_request =
     \<lparr>rq_client_ip = Some ''1.2.3.4'', rq_user_agent = Some ''curl/8.0'',
      rq_endpoint = Some ''/login'', rq_method = Some ''GET'', rq_status_code = Some 200\<rparr>"

definition sqlmap_request :: request_data where
  "sqlmap_request = login_request\<lparr>rq_user_agent := Some ''sqlmap/1.0''\<rparr>"

definition admin_error_request :: request_data where
  "admin_error_request =
     login_request\<lparr>rq_endpoint := Some ''/admin'', rq_status_code := Some 500\<rparr>"

definition quiet_sample :: historical_sample where
  "quiet_sample =
     \<lparr>h_requests_per_minute = Some 1, h_user_agent_length = Some 8,
      h_endpoint_length = Some 6, h_status_code = Some 200, h_risk_score = Some 0\<rparr>"


text \<open>The monitor after a successful training on ten quiet samples.\<close>

definition trained_monitor :: "real SecurityMonitor" where
  "trained_monitor =
     snd (train_security_model envelope_ops (init_monitor 0) (replicate 10 quiet_sample))"

text \<open>The monitor after one client sent fifty failing requests to \<^verbatim>\<open>/admin\<close> at time 0.\<close>

definition busy_monitor :: "real SecurityMonitor" where
  "busy_monitor =
     run_monitor envelope_ops (init_monitor 0) (replicate 50 (Analyze admin_error_request 0))"

text \<open>The trained monitor after one request of a scanner at time 0.\<close>

definition visited_monitor :: "real SecurityMonitor" where
  "visited_monitor = snd (analyze_request envelope_ops trained_monitor sqlmap_request 0)"




section \<open>The accumulator of \<^verbatim>\<open>analyze_request\<close>\<close>

lemma weight_pos: "0 < weight x"
  by (cases x) simp_all

lemma sum_weight_nonneg: "0 \<le> sum_list (map weight ts)"
  by (induction ts) (auto simp: less_imp_le [OF weight_pos] intro: add_nonneg_nonneg)

lemma sum_weight_pos_iff: "0 < sum_list (map weight ts) \<longleftrightarrow> ts \<noteq> []"
proof (cases ts)
  case Nil
  then show ?thesis by simp
next
  case (Cons x xs)
  have "0 < weight x + sum_list (map weight xs)"
    using weight_pos [of x] sum_weight_nonneg [of xs] by linarith
  with Cons show ?thesis by simp
qed

lemma balanced_check_user_agent: "balanced a \<Longrightarrow> balanced (check_user_agent ps u a)"
  by (induction ps) (auto simp: balanced_def)

lemma balanced_check_request_rate: "balanced a \<Longrightarrow> balanced (check_request_rate n a)"
  by (auto simp: balanced_def check_request_rate_def)

lemma balanced_check_endpoint: "balanced a \<Longrightarrow> balanced (check_endpoint ps e a)"
  by (induction ps) (auto simp: balanced_def)

lemma balanced_check_method: "balanced a \<Longrightarrow> balanced (check_method m a)"
  by (auto simp: balanced_def check_method_def)

lemma balanced_check_errors: "balanced a \<Longrightarrow> balanced (snd (check_errors ec ip ep code a))"
  by (auto simp: balanced_def check_errors_def Let_def)

lemma balanced_ml_stage: "balanced a \<Longrightarrow> balanced (ml_stage ops m fv a)"
  by (auto simp: balanced_def ml_stage_def split: option.splits)

lemma balanced_run_rules: "balanced (snd (run_rules s ip ua ep m code n))"
  unfolding run_rules_def Let_def
  by (intro balanced_check_errors balanced_check_method balanced_check_endpoint
        balanced_check_request_rate balanced_check_user_agent)
     (simp add: balanced_def)

lemma analyze_request_acc:
  "threats (fst (analyze_request ops s rd t)) = fst (final_acc ops s rd t)"
  "risk_score (fst (analyze_request ops s rd t)) = min (snd (final_acc ops s rd t)) 1"
  "is_threat (fst (analyze_request ops s rd t)) = (snd (final_acc ops s rd t) > 0.5)"
  by (simp_all add: analyze_request_def final_acc_def Let_def split: prod.splits)

lemma balanced_final_acc: "balanced (final_acc ops s rd t)"
  unfolding final_acc_def Let_def
  by (auto intro: balanced_ml_stage balanced_run_rules)

subsection \<open>The code's rules against the specification's\<close>

lemma check_user_agent_find:
  "check_user_agent ps u a =
     (case find (\<lambda>p. is_in p u) ps of
        None \<Rightarrow> a
      | Some p \<Rightarrow> (fst a @ [SuspiciousUserAgent p], snd a + 0.3))"
  by (induction ps) auto

lemma check_endpoint_ex:
  "check_endpoint ps e a =
     (if list_ex (\<lambda>p. is_in p (lower e)) ps
      then (fst a @ [SuspiciousEndpoint e], snd a + 0.2) else a)"
  by (induction ps) auto

lemma check_user_agent_spec:
  "check_user_agent suspicious_user_agents (lower ua) a =
     (fst a @ fst (spec_rule1 ua), snd a + snd (spec_rule1 ua))"
  by (simp add: check_user_agent_find spec_rule1_def split: option.splits)

lemma check_request_rate_spec:
  "check_request_rate n a = (fst a @ fst (spec_rule2 n), snd a + snd (spec_rule2 n))"
  by (simp add: check_request_rate_def spec_rule2_def max_requests_per_ip_per_minute_def)

lemma check_endpoint_spec:
  "check_endpoint suspicious_endpoints ep a =
     (fst a @ fst (spec_rule3 ep), snd a + snd (spec_rule3 ep))"
  by (simp add: check_endpoint_ex spec_rule3_def)

lemma check_method_spec:
  "check_method m a = (fst a @ fst (spec_rule4 m), snd a + snd (spec_rule4 m))"
  by (simp add: check_method_def spec_rule4_def allowed_methods_def)

lemma check_errors_spec:
  "snd (check_errors (error_counts s) ip ep code a) =
     (fst a @ fst (spec_rule5 s ip ep code), snd a + snd (spec_rule5 s ip ep code))"
  by (simp add: check_errors_def spec_rule5_def Let_def)

lemma run_rules_spec:
  "snd (run_rules s ip ua ep m code n) =
     (spec_rules_threats s ip ua ep m code n, spec_rules_score s ip ua ep m code n)"
  by (simp add: run_rules_def Let_def check_errors_spec check_method_spec check_endpoint_spec
        check_request_rate_spec check_user_agent_spec spec_rules_threats_def
        spec_rules_score_def)

lemma ml_stage_spec:
  "ml_stage ops model fv a =
     (fst a @ fst (spec_ml ops model fv), snd a + snd (spec_ml ops model fv))"
  by (simp add: ml_stage_def spec_ml_def split: option.splits)

subsection \<open>The recorded window\<close>

lemma clean_old_keeps_last: "clean_old (t - 60) (xs @ [t]) \<noteq> []"
  by (induction xs) auto

lemma clean_old_last: "last (clean_old (t - 60) (xs @ [t])) = t"
  by (induction xs) auto

lemma recorded_window_nonempty: "recorded_window s ip t \<noteq> []"
  by (simp add: recorded_window_def clean_old_keeps_last)

lemma dd_get_update_same: "dd_get (AList.update k v d) k dflt = v"
  by (simp add: dd_get_def update_conv')

lemma analyze_request_times:
  "ip_request_times (snd (analyze_request ops s rd t)) =
     AList.update (dict_get (rq_client_ip rd) ''unknown'')
       (recorded_window s (dict_get (rq_client_ip rd) ''unknown'') t) (ip_request_times s)"
  by (simp add: analyze_request_def Let_def split: prod.splits)

lemma analyze_request_window:
  "dd_get (ip_request_times (snd (analyze_request ops s rd t)))
      (dict_get (rq_client_ip rd) ''unknown'') [] =
   recorded_window s (dict_get (rq_client_ip rd) ''unknown'') t"
  by (simp add: analyze_request_times dd_get_update_same)

lemma set_update_subset: "set (AList.update k v d) \<subseteq> insert (k, v) (set d)"
  by (induction d) auto

lemma sorted_clean_old: "sorted xs \<Longrightarrow> sorted (clean_old m xs)"
  by (induction xs) auto

lemma set_clean_old: "set (clean_old m xs) \<subseteq> set xs"
  by (induction xs) auto

lemma clean_old_lower: "sorted xs \<Longrightarrow> x \<in> set (clean_old m xs) \<Longrightarrow> m \<le> x"
  by (induction xs) (auto split: if_splits)

lemma recorded_window_bounds:
  assumes "sorted w" and "\<forall>x \<in> set w. x \<le> t" and "dd_get (ip_request_times s) ip [] = w"
  shows "sorted (recorded_window s ip t) \<and>
         (\<forall>x \<in> set (recorded_window s ip t). t - 60 \<le> x \<and> x \<le> t)"
proof -
  have srt: "sorted (w @ [t])"
    using assms by (simp add: sorted_append)
  have "\<forall>x \<in> set (w @ [t]). x \<le> t"
    using assms by simp
  then have up: "\<forall>x \<in> set (clean_old (t - 60) (w @ [t])). x \<le> t"
    using set_clean_old [of "t - 60" "w @ [t]"] by blast
  show ?thesis
    using sorted_clean_old [OF srt] clean_old_lower [OF srt] up assms(3)
    by (simp add: recorded_window_def)
qed

lemma busy_monitor_eq:
  "busy_monitor =
     \<lparr>ip_request_counts = [(''1.2.3.4'', 50)],
      ip_request_times = [(''1.2.3.4'', replicate 50 0)],
      user_agents = [], suspicious_patterns = [], security_model = 0, is_trained = False,
      error_counts = Some [(''1.2.3.4:/admin'', 50)]\<rparr>"
  by code_simp

lemma trained_monitor_eq:
  "trained_monitor =
     \<lparr>ip_request_counts = [], ip_request_times = [], user_agents = [],
      suspicious_patterns = [], security_model = 215, is_trained = True,
      error_counts = None\<rparr>"
  by code_simp

lemma visited_monitor_eq:
  "visited_monitor =
     \<lparr>ip_request_counts = [(''1.2.3.4'', 1)], ip_request_times = [(''1.2.3.4'', [0])],
      user_agents = [], suspicious_patterns = [], security_model = 215, is_trained = True,
      error_counts = None\<rparr>"
  by code_simp

section \<open>Risk score and threat list\<close>

text \<open>
  C3. For every input and every tracker state, the assessment returned by
  \<^verbatim>\<open>analyze_request\<close> has a risk score between 0 and 1, and its \<open>is_threat\<close> field is
  true exactly when the risk score is greater than 0.5.
\<close>

theorem risk_score_bounds:
  "0 \<le> risk_score (fst (analyze_request ops s rd t)) \<and>
   risk_score (fst (analyze_request ops s rd t)) \<le> 1 \<and>
   (is_threat (fst (analyze_request ops s rd t)) \<longleftrightarrow>
      risk_score (fst (analyze_request ops s rd t)) > 0.5)"
proof -
  have "0 \<le> snd (final_acc ops s rd t)"
    using balanced_final_acc [of ops s rd t] sum_weight_nonneg
    by (simp add: balanced_def)
  then show ?thesis
    by (auto simp: analyze_request_acc)
qed

text \<open>
  C8. For every input and every state, the returned risk score is positive exactly when
  the returned threat list is not empty: each entry of the list was appended together
  with its positive contribution, so the score is the capped sum of the contributions
  of the entries.
\<close>

theorem risk_positive_iff_threats:
  "(risk_score (fst (analyze_request ops s rd t)) > 0 \<longleftrightarrow>
      threats (fst (analyze_request ops s rd t)) \<noteq> []) \<and>
   risk_score (fst (analyze_request ops s rd t)) =
      min (sum_list (map weight (threats (fst (analyze_request ops s rd t))))) 1"
proof -
  have b: "snd (final_acc ops s rd t) = sum_list (map weight (fst (final_acc ops s rd t)))"
    using balanced_final_acc [of ops s rd t] by (simp add: balanced_def)
  show ?thesis
    using sum_weight_pos_iff [of "fst (final_acc ops s rd t)"]
    by (auto simp: analyze_request_acc b)
qed

section \<open>The model stage\<close>

text \<open>
  C5. When the security model is trained and the window size after recording is not
  zero, \<^verbatim>\<open>analyze_request\<close> scores the row of window size, user agent length, endpoint
  length, status code and the score accumulated by rules 1 to 5, in that order, where
  the fifth component is the sum of the contributions of rules 1 to 5 for this call. If
  the model flags the row, exactly 0.5 is added to the accumulator and one diagnostic
  entry is appended; otherwise, or when an estimator call raises, nothing is added.
\<close>

theorem ml_feature_vector:
  fixes ops :: "'m IsolationForest_ops" and s :: "'m SecurityMonitor"
    and rd :: request_data and t :: real
  defines "ip \<equiv> dict_get (rq_client_ip rd) ''unknown''"
    and "ua \<equiv> dict_get (rq_user_agent rd) ''''"
    and "ep \<equiv> dict_get (rq_endpoint rd) ''''"
    and "m \<equiv> dict_get (rq_method rd) ''GET''"
    and "code \<equiv> dict_get (rq_status_code rd) 200"
  defines "n \<equiv> int (length (recorded_window s ip t))"
  defines "R \<equiv> spec_rules_score s ip ua ep m code n"
  defines "fv \<equiv> [real_of_int n, real (length ua), real (length ep), real_of_int code, R]"
  assumes trained: "is_trained s" and nonzero: "n > 0"
  shows "threats (fst (analyze_request ops s rd t)) =
           spec_rules_threats s ip ua ep m code n @ fst (spec_ml ops (security_model s) fv) \<and>
         risk_score (fst (analyze_request ops s rd t)) =
           min (R + snd (spec_ml ops (security_model s) fv)) 1 \<and>
         is_threat (fst (analyze_request ops s rd t)) =
           (R + snd (spec_ml ops (security_model s) fv) > 0.5)"
  using trained nonzero
  unfolding ip_def ua_def ep_def m_def code_def n_def R_def fv_def
  by (simp add: analyze_request_acc final_acc_def Let_def run_rules_spec ml_stage_spec)

text \<open>
  The theorem at the trained monitor and a request with a deny-listed user agent: the
  row is \<open>[1, 10, 6, 200, 0.3]\<close>, whose sum exceeds the fitted threshold 215.
\<close>

theorem ml_feature_vector_witness:
  "is_trained trained_monitor \<and>
   0 < int (length (recorded_window trained_monitor
                      (dict_get (rq_client_ip sqlmap_request) ''unknown'') 0)) \<and>
   threats (fst (analyze_request envelope_ops trained_monitor sqlmap_request 0)) =
     [SuspiciousUserAgent ''sqlmap'', MLAnomaly (- 2.3)] \<and>
   risk_score (fst (analyze_request envelope_ops trained_monitor sqlmap_request 0)) = 0.8"
proof -
  have h1: "is_trained trained_monitor"
    by (simp add: trained_monitor_eq)
  have h2: "0 < int (length (recorded_window trained_monitor
                      (dict_get (rq_client_ip sqlmap_request) ''unknown'') 0))"
    unfolding trained_monitor_eq by code_simp
  note T = ml_feature_vector [OF h1 h2, of envelope_ops]
  have c1: "threats (fst (analyze_request envelope_ops trained_monitor sqlmap_request 0)) =
              [SuspiciousUserAgent ''sqlmap'', MLAnomaly (- 2.3)]"
    by (rule trans [OF conjunct1 [OF T]]) (unfold trained_monitor_eq, code_simp)
  have c2: "risk_score (fst (analyze_request envelope_ops trained_monitor sqlmap_request 0)) =
              0.8"
    by (rule trans [OF conjunct1 [OF conjunct2 [OF T]]]) (unfold trained_monitor_eq, code_simp)
  from h1 h2 c1 c2 show ?thesis by (intro conjI)
qed

text \<open>
  C9. Every call to \<^verbatim>\<open>analyze_request\<close> appends the current clock reading to the calling
  client's window before pruning, and pruning never removes it: the window after
  recording has at least one entry and ends with the current reading. So the guard on
  the window size never blocks the model stage, and whenever the trained flag is set the
  result of the call is the result of the model stage applied to the outcome of the
  rules.
\<close>

theorem model_always_consulted:
  fixes ops :: "'m IsolationForest_ops" and s :: "'m SecurityMonitor"
    and rd :: request_data and t :: real
  defines "ip \<equiv> dict_get (rq_client_ip rd) ''unknown''"
    and "ua \<equiv> dict_get (rq_user_agent rd) ''''"
    and "ep \<equiv> dict_get (rq_endpoint rd) ''''"
    and "m \<equiv> dict_get (rq_method rd) ''GET''"
    and "code \<equiv> dict_get (rq_status_code rd) 200"
  defines "window \<equiv> dd_get (ip_request_times (snd (analyze_request ops s rd t))) ip []"
  defines "a5 \<equiv> snd (run_rules s ip ua ep m code (int (length window)))"
  shows "window = clean_old (t - 60) (dd_get (ip_request_times s) ip [] @ [t]) \<and>
         1 \<le> length window \<and> last window = t \<and>
         (is_trained s \<longrightarrow>
            (threats (fst (analyze_request ops s rd t)),
             risk_score (fst (analyze_request ops s rd t))) =
            (let a6 = ml_stage ops (security_model s)
                        [real (length window), real (length ua), real (length ep),
                         real_of_int code, snd a5] a5
             in (fst a6, min (snd a6) 1)))"
proof -
  have w: "window = recorded_window s ip t"
    unfolding window_def ip_def by (rule analyze_request_window)
  have ne: "window \<noteq> []"
    unfolding w by (rule recorded_window_nonempty)
  have l: "last window = t"
    unfolding w recorded_window_def by (rule clean_old_last)
  have "1 \<le> length window"
    using ne by (cases window) simp_all
  moreover have "window = clean_old (t - 60) (dd_get (ip_request_times s) ip [] @ [t])"
    by (simp add: w recorded_window_def)
  moreover have "is_trained s \<longrightarrow>
            (threats (fst (analyze_request ops s rd t)),
             risk_score (fst (analyze_request ops s rd t))) =
            (let a6 = ml_stage ops (security_model s)
                        [real (length window), real (length ua), real (length ep),
                         real_of_int code, snd a5] a5
             in (fst a6, min (snd a6) 1))"
    using ne unfolding a5_def w ip_def ua_def ep_def m_def code_def
    by (simp add: analyze_request_acc final_acc_def Let_def)
  ultimately show ?thesis using l by simp
qed

text \<open>
  The theorem at the trained monitor that has seen one request at time 0: the call at
  time 100 prunes the stale entry and keeps its own reading; the model is asked and flags
  the row.
\<close>

theorem model_always_consulted_witness:
  "is_trained visited_monitor \<and>
   dd_get (ip_request_times (snd (analyze_request envelope_ops visited_monitor
                                    sqlmap_request 100)))
     (dict_get (rq_client_ip sqlmap_request) ''unknown'') [] = [100] \<and>
   (threats (fst (analyze_request envelope_ops visited_monitor sqlmap_request 100)),
    risk_score (fst (analyze_request envelope_ops visited_monitor sqlmap_request 100))) =
     ([SuspiciousUserAgent ''sqlmap'', MLAnomaly (- 2.3)], 0.8)"
proof -
  have h: "is_trained visited_monitor"
    by (simp add: visited_monitor_eq)
  note T = model_always_consulted [of envelope_ops visited_monitor sqlmap_request 100]
  note I = mp [OF conjunct2 [OF conjunct2 [OF conjunct2 [OF T]]] h]
  have w: "dd_get (ip_request_times (snd (analyze_request envelope_ops visited_monitor
                                    sqlmap_request 100)))
     (dict_get (rq_client_ip sqlmap_request) ''unknown'') [] = [100]"
    by (rule trans [OF conjunct1 [OF T]]) (unfold visited_monitor_eq, code_simp)
  have c: "(threats (fst (analyze_request envelope_ops visited_monitor sqlmap_request 100)),
    risk_score (fst (analyze_request envelope_ops visited_monitor sqlmap_request 100))) =
     ([SuspiciousUserAgent ''sqlmap'', MLAnomaly (- 2.3)], 0.8)"
    by (rule trans [OF I]) (unfold visited_monitor_eq, code_simp)
  from h w c show ?thesis by (intro conjI)
qed

section \<open>The user agent rule under the cap\<close>








section \<open>Resetting the counters\<close>

lemma map_of_cleared:
  "map_of (map (\<lambda>(ip, times). (ip, [])) d) k =
     (case map_of d k of None \<Rightarrow> None | Some v \<Rightarrow> Some [])"
  by (induction d) auto

lemma dd_get_cleared: "dd_get (map (\<lambda>(ip, times). (ip, [])) d) k [] = []"
  by (simp add: dd_get_def map_of_cleared split: option.splits)

lemma keys_cleared: "map fst (map (\<lambda>(ip, times). (ip, [])) d) = map fst d"
  by (induction d) auto

lemma recorded_window_reset: "recorded_window (reset_counters s) ip t = [t]"
  by (simp add: recorded_window_def reset_counters_def dd_get_cleared)

text \<open>
  C10. \<^verbatim>\<open>reset_counters\<close> empties the request counts, every client's window (the keys
  stay), the user-agent counts, the suspicious patterns and the error counters, and
  leaves the security model and the trained flag as they were: after a reset, a trained
  model still scores the next \<^verbatim>\<open>analyze_request\<close> call, on a window of size 1.
\<close>

theorem reset_keeps_model:
  fixes ops :: "'m IsolationForest_ops" and s :: "'m SecurityMonitor"
    and rd :: request_data and t :: real
  defines "s' \<equiv> reset_counters s"
  defines "ip \<equiv> dict_get (rq_client_ip rd) ''unknown''"
    and "ua \<equiv> dict_get (rq_user_agent rd) ''''"
    and "ep \<equiv> dict_get (rq_endpoint rd) ''''"
    and "m \<equiv> dict_get (rq_method rd) ''GET''"
    and "code \<equiv> dict_get (rq_status_code rd) 200"
  defines "a5 \<equiv> snd (run_rules s' ip ua ep m code 1)"
  shows "ip_request_counts s' = [] \<and>
         map fst (ip_request_times s') = map fst (ip_request_times s) \<and>
         list_all (\<lambda>(k, times). times = []) (ip_request_times s') \<and>
         user_agents s' = [] \<and> suspicious_patterns s' = [] \<and>
         (error_counts s' = None \<or> error_counts s' = Some []) \<and>
         security_model s' = security_model s \<and> is_trained s' = is_trained s \<and>
         (is_trained s \<longrightarrow>
            (threats (fst (analyze_request ops s' rd t)),
             risk_score (fst (analyze_request ops s' rd t))) =
            (let a6 = ml_stage ops (security_model s)
                        [1, real (length ua), real (length ep), real_of_int code, snd a5] a5
             in (fst a6, min (snd a6) 1)))"
proof -
  have times: "ip_request_times s' = map (\<lambda>(ip, times). (ip, [])) (ip_request_times s)"
    by (simp add: s'_def reset_counters_def)
  have keys: "map fst (ip_request_times s') = map fst (ip_request_times s)"
    unfolding times by (rule keys_cleared)
  have empty: "list_all (\<lambda>(k, times). times = []) (ip_request_times s')"
    unfolding times by (induction "ip_request_times s") (auto simp: list_all_iff)
  have rest: "ip_request_counts s' = [] \<and> user_agents s' = [] \<and> suspicious_patterns s' = [] \<and>
         (error_counts s' = None \<or> error_counts s' = Some []) \<and>
         security_model s' = security_model s \<and> is_trained s' = is_trained s"
    by (auto simp: s'_def reset_counters_def split: option.splits)
  have tr: "is_trained s' = is_trained s" and mo: "security_model s' = security_model s"
    using rest by simp_all
  have "is_trained s \<longrightarrow>
            (threats (fst (analyze_request ops s' rd t)),
             risk_score (fst (analyze_request ops s' rd t))) =
            (let a6 = ml_stage ops (security_model s)
                        [1, real (length ua), real (length ep), real_of_int code, snd a5] a5
             in (fst a6, min (snd a6) 1))"
    unfolding a5_def ip_def ua_def ep_def m_def code_def
    by (simp add: analyze_request_acc final_acc_def Let_def tr mo
          recorded_window_reset [of s, folded s'_def])
  with keys empty rest show ?thesis by simp
qed

text \<open>
  The theorem at the trained monitor that has seen one request: after the reset the
  window is empty and the next request is still flagged by the model.
\<close>

theorem reset_keeps_model_witness:
  "is_trained visited_monitor \<and>
   ip_request_times (reset_counters visited_monitor) = [(''1.2.3.4'', [])] \<and>
   (threats (fst (analyze_request envelope_ops (reset_counters visited_monitor)
                    sqlmap_request 1)),
    risk_score (fst (analyze_request envelope_ops (reset_counters visited_monitor)
                       sqlmap_request 1))) =
     ([SuspiciousUserAgent ''sqlmap'', MLAnomaly (- 2.3)], 0.8)"
proof -
  have h: "is_trained visited_monitor"
    by (simp add: visited_monitor_eq)
  note T = reset_keeps_model [of visited_monitor envelope_ops sqlmap_request 1]
  note I = mp [OF conjunct2 [OF conjunct2 [OF conjunct2 [OF conjunct2 [OF conjunct2
             [OF conjunct2 [OF conjunct2 [OF conjunct2 [OF T]]]]]]]] h]
  have w: "ip_request_times (reset_counters visited_monitor) = [(''1.2.3.4'', [])]"
    unfolding visited_monitor_eq by code_simp
  have c: "(threats (fst (analyze_request envelope_ops (reset_counters visited_monitor)
                    sqlmap_request 1)),
    risk_score (fst (analyze_request envelope_ops (reset_counters visited_monitor)
                       sqlmap_request 1))) =
     ([SuspiciousUserAgent ''sqlmap'', MLAnomaly (- 2.3)], 0.8)"
    by (rule trans [OF I]) (unfold visited_monitor_eq, code_simp)
  from h w c show ?thesis by (intro conjI)
qed

section \<open>The sliding window over call sequences\<close>

lemma dd_get_bounded:
  assumes "windows_bounded T s"
  shows "sorted (dd_get (ip_request_times s) ip []) \<and>
         (\<forall>x \<in> set (dd_get (ip_request_times s) ip []). x \<le> T)"
proof (cases "map_of (ip_request_times s) ip")
  case None
  then show ?thesis by (simp add: dd_get_def)
next
  case (Some w)
  then have "(ip, w) \<in> set (ip_request_times s)" by (rule map_of_SomeD)
  with assms Some show ?thesis
    by (auto simp: windows_bounded_def dd_get_def)
qed

lemma windows_bounded_mono: "windows_bounded T s \<Longrightarrow> T \<le> T' \<Longrightarrow> windows_bounded T' s"
  by (fastforce simp: windows_bounded_def)

lemma windows_bounded_analyze:
  assumes inv: "windows_bounded T s" and le: "T \<le> t"
  shows "windows_bounded t (snd (analyze_request ops s rd t))"
proof -
  define ip where "ip = dict_get (rq_client_ip rd) ''unknown''"
  have old: "windows_bounded t s"
    using inv le by (rule windows_bounded_mono)
  have w: "sorted (recorded_window s ip t) \<and> (\<forall>x \<in> set (recorded_window s ip t). x \<le> t)"
    using recorded_window_bounds [of "dd_get (ip_request_times s) ip []" t s ip]
      dd_get_bounded [OF old, of ip] by simp
  show ?thesis
    unfolding windows_bounded_def analyze_request_times ip_def [symmetric]
    using set_update_subset [of ip "recorded_window s ip t" "ip_request_times s"] w old
    by (fastforce simp: windows_bounded_def)
qed

lemma windows_bounded_train:
  "windows_bounded T s \<Longrightarrow> windows_bounded T (snd (train_security_model ops s h))"
  by (simp add: windows_bounded_def train_security_model_def Let_def split: prod.splits)

lemma windows_bounded_reset: "windows_bounded T (reset_counters s)"
  by (auto simp: windows_bounded_def reset_counters_def)

lemma windows_bounded_run:
  assumes "windows_bounded T s" and "sorted (T # clock_readings calls)"
  shows "windows_bounded (last (T # clock_readings calls)) (run_monitor ops s calls)"
  using assms
proof (induction calls arbitrary: s T)
  case Nil
  then show ?case by simp
next
  case (Cons c cs)
  show ?case
  proof (cases c)
    case (Analyze rd t)
    have "windows_bounded t (monitor_step ops s c)"
      using Cons.prems Analyze by (simp add: windows_bounded_analyze)
    moreover have "sorted (t # clock_readings cs)"
      using Cons.prems Analyze by simp
    ultimately have "windows_bounded (last (t # clock_readings cs))
                       (run_monitor ops (monitor_step ops s c) cs)"
      by (rule Cons.IH)
    then show ?thesis using Analyze by simp
  next
    case (Train h)
    have "windows_bounded T (monitor_step ops s c)"
      using Cons.prems Train by (simp add: windows_bounded_train)
    moreover have "sorted (T # clock_readings cs)"
      using Cons.prems Train by simp
    ultimately have "windows_bounded (last (T # clock_readings cs))
                       (run_monitor ops (monitor_step ops s c) cs)"
      by (rule Cons.IH)
    then show ?thesis using Train by simp
  next
    case Reset
    have "windows_bounded T (monitor_step ops s c)"
      using Reset by (simp add: windows_bounded_reset)
    moreover have "sorted (T # clock_readings cs)"
      using Cons.prems Reset by simp
    ultimately have "windows_bounded (last (T # clock_readings cs))
                       (run_monitor ops (monitor_step ops s c) cs)"
      by (rule Cons.IH)
    then show ?thesis using Reset by simp
  qed
qed

lemma run_monitor_append:
  "run_monitor ops s (cs @ ds) = run_monitor ops (run_monitor ops s cs) ds"
  by (induction cs arbitrary: s) auto

lemma clock_readings_append:
  "clock_readings (cs @ ds) = clock_readings cs @ clock_readings ds"
  by (induction cs rule: clock_readings.induct) auto

lemma windows_bounded_before_last:
  assumes "sorted (clock_readings (calls @ [Analyze rd t]))"
  shows "windows_bounded t (run_monitor ops (init_monitor m0) calls)"
proof -
  have srt: "sorted (clock_readings calls @ [t])"
    using assms by (simp add: clock_readings_append)
  show ?thesis
  proof (cases "clock_readings calls")
    case Nil
    have "windows_bounded t (init_monitor m0)"
      by (simp add: windows_bounded_def init_monitor_def)
    moreover have "sorted (t # clock_readings calls)" using Nil by simp
    ultimately have "windows_bounded (last (t # clock_readings calls))
                       (run_monitor ops (init_monitor m0) calls)"
      by (rule windows_bounded_run)
    then show ?thesis using Nil by simp
  next
    case (Cons T0 rest)
    have "windows_bounded T0 (init_monitor m0)"
      by (simp add: windows_bounded_def init_monitor_def)
    moreover have "sorted (T0 # clock_readings calls)"
      using srt Cons by (simp add: sorted_append)
    ultimately have "windows_bounded (last (T0 # clock_readings calls))
                       (run_monitor ops (init_monitor m0) calls)"
      by (rule windows_bounded_run)
    moreover have "last (T0 # clock_readings calls) \<le> t"
      using srt Cons by (auto simp: sorted_append)
    ultimately show ?thesis
      by (rule windows_bounded_mono)
  qed
qed

text \<open>
  C2, as amended. For every client and every call to \<^verbatim>\<open>analyze_request\<close> at time \<open>t\<close>,
  in any sequence of calls on a fresh monitor whose clock readings do not decrease, the
  client's window after the call holds only readings from \<open>t - 60\<close> to \<open>t\<close>, both ends
  included, in ascending order. A reading exactly 60 seconds old is kept.
\<close>

theorem window_closed_interval:
  fixes ops :: "'m IsolationForest_ops" and m0 :: 'm
    and rd :: request_data and t :: real and calls :: "monitor_call list"
  defines "s' \<equiv> run_monitor ops (init_monitor m0) (calls @ [Analyze rd t])"
  defines "window \<equiv> dd_get (ip_request_times s') (dict_get (rq_client_ip rd) ''unknown'') []"
  assumes clock: "sorted (clock_readings (calls @ [Analyze rd t]))"
  shows "sorted window \<and> (\<forall>x \<in> set window. t - 60 \<le> x \<and> x \<le> t)"
proof -
  define s where "s = run_monitor ops (init_monitor m0) calls"
  define ip where "ip = dict_get (rq_client_ip rd) ''unknown''"
  have inv: "windows_bounded t s"
    unfolding s_def using clock by (rule windows_bounded_before_last)
  have "window = recorded_window s ip t"
    unfolding window_def s'_def ip_def s_def
    by (simp add: run_monitor_append analyze_request_window)
  then show ?thesis
    using recorded_window_bounds [of "dd_get (ip_request_times s) ip []" t s ip]
      dd_get_bounded [OF inv, of ip] by simp
qed

text \<open>
  Three requests of one client at times 0, 30 and 70: the clock does not decrease, and
  after the last call every reading in the window lies between 10 and 70.
\<close>

theorem window_closed_interval_witness:
  "sorted (clock_readings
     ([Analyze login_request 0, Analyze login_request 30] @ [Analyze login_request 70])) \<and>
   sorted (dd_get (ip_request_times (run_monitor envelope_ops (init_monitor 0)
        ([Analyze login_request 0, Analyze login_request 30] @ [Analyze login_request 70])))
      (dict_get (rq_client_ip login_request) ''unknown'') []) \<and>
   list_all (\<lambda>x. 70 - 60 \<le> x \<and> x \<le> 70)
     (dd_get (ip_request_times (run_monitor envelope_ops (init_monitor 0)
        ([Analyze login_request 0, Analyze login_request 30] @ [Analyze login_request 70])))
      (dict_get (rq_client_ip login_request) ''unknown'') []) \<and>
   dd_get (ip_request_times (run_monitor envelope_ops (init_monitor 0)
        ([Analyze login_request 0, Analyze login_request 30] @ [Analyze login_request 70])))
      (dict_get (rq_client_ip login_request) ''unknown'') [] = [30, 70]"
proof -
  have h: "sorted (clock_readings
     ([Analyze login_request 0, Analyze login_request 30] @ [Analyze login_request 70]))"
    by simp
  note T = window_closed_interval [OF h, of envelope_ops 0]
  have c: "list_all (\<lambda>x. 70 - 60 \<le> x \<and> x \<le> 70)
     (dd_get (ip_request_times (run_monitor envelope_ops (init_monitor 0)
        ([Analyze login_request 0, Analyze login_request 30] @ [Analyze login_request 70])))
      (dict_get (rq_client_ip login_request) ''unknown'') [])"
    unfolding list_all_iff by (rule conjunct2 [OF T])
  have v: "dd_get (ip_request_times (run_monitor envelope_ops (init_monitor 0)
        ([Analyze login_request 0, Analyze login_request 30] @ [Analyze login_request 70])))
      (dict_get (rq_client_ip login_request) ''unknown'') [] = [30, 70]"
    by code_simp
  from h conjunct1 [OF T] c v show ?thesis by (intro conjI)
qed

text \<open>
  The claim as stated excludes the lower end. A client calls at time 0 and again at time
  60: the window is then \<open>[0, 60]\<close>, and the reading 0 is not greater than \<open>60 - 60\<close>.
\<close>

theorem window_open_interval_counterexample:
  "dd_get (ip_request_times
      (run_monitor envelope_ops (init_monitor 0)
         [Analyze login_request 0, Analyze login_request 60])) ''1.2.3.4'' [] = [0, 60] \<and>
   \<not> list_all (\<lambda>x. 60 - 60 < x \<and> x \<le> 60)
       (dd_get (ip_request_times
          (run_monitor envelope_ops (init_monitor 0)
             [Analyze login_request 0, Analyze login_request 60])) ''1.2.3.4'' [])"
  by code_simp

section \<open>The high-risk count of the summary\<close>

lemma distinct_keys_step:
  assumes d: "distinct (map fst (ip_request_times s))"
  shows "distinct (map fst (ip_request_times (monitor_step ops s c)))"
proof (cases c)
  case (Analyze rd t)
  then show ?thesis
    using d by (simp add: analyze_request_times distinct_update)
next
  case (Train h)
  then show ?thesis
    using d by (simp add: train_security_model_def Let_def split: prod.splits)
next
  case Reset
  have "ip_request_times (reset_counters s) =
          map (\<lambda>(ip, times). (ip, [])) (ip_request_times s)"
    by (simp add: reset_counters_def)
  then have "map fst (ip_request_times (reset_counters s)) = map fst (ip_request_times s)"
    by (simp only: keys_cleared)
  then show ?thesis
    using Reset d by simp
qed

lemma distinct_keys_run:
  "distinct (map fst (ip_request_times s)) \<Longrightarrow>
   distinct (map fst (ip_request_times (run_monitor ops s calls)))"
  by (induction calls arbitrary: s) (auto intro: distinct_keys_step)

lemma count_entries_card:
  assumes "distinct (map fst d)"
  shows "length (filter (\<lambda>(k, v). P v) d) = card {k. \<exists>v. map_of d k = Some v \<and> P v}"
  using assms
proof (induction d)
  case Nil
  then show ?case by simp
next
  case (Cons e d)
  obtain k v where e: "e = (k, v)" by (cases e)
  have notin: "map_of d k = None"
    using Cons.prems e by (simp add: map_of_eq_None_iff)
  have fin: "finite {k'. \<exists>v'. map_of d k' = Some v' \<and> P v'}"
    by (rule finite_subset [of _ "dom (map_of d)"]) (auto simp: finite_dom_map_of)
  have knot: "k \<notin> {k'. \<exists>v'. map_of d k' = Some v' \<and> P v'}"
    using notin by simp
  have IH: "length (filter (\<lambda>(k, v). P v) d) = card {k. \<exists>v. map_of d k = Some v \<and> P v}"
    using Cons by simp
  show ?case
  proof (cases "P v")
    case True
    have "{k'. \<exists>v'. map_of (e # d) k' = Some v' \<and> P v'} =
          insert k {k'. \<exists>v'. map_of d k' = Some v' \<and> P v'}"
      using True e notin by auto
    then show ?thesis
      using True e IH fin knot by simp
  next
    case False
    have "{k'. \<exists>v'. map_of (e # d) k' = Some v' \<and> P v'} =
          {k'. \<exists>v'. map_of d k' = Some v' \<and> P v'}"
      using False e notin by auto
    then show ?thesis
      using False e IH by simp
  qed
qed

lemma high_risk_ips_card:
  assumes "distinct (map fst (ip_request_times s))"
  shows "high_risk_ips (get_security_summary s now) =
           card {ip. 50 < length (dd_get (ip_request_times s) ip [])}"
proof -
  have "{ip. 50 < length (dd_get (ip_request_times s) ip [])} =
        {k. \<exists>v. map_of (ip_request_times s) k = Some v \<and> 50 < length v}"
    by (auto simp: dd_get_def split: option.splits)
  then show ?thesis
    using count_entries_card [OF assms, of "\<lambda>v. 50 < length v"]
    by (simp add: get_security_summary_def max_requests_per_ip_per_minute_def)
qed

text \<open>
  C7, as amended. In every tracker state reached by calls on a fresh monitor, the
  high-risk count of the security summary is the number of clients whose stored window,
  as the client's own last \<^verbatim>\<open>analyze_request\<close> call (or a reset) left it, has more than
  50 entries. The summary does not prune the windows, so the count does not depend on
  the query time.
\<close>

theorem high_risk_counts_stored_windows:
  fixes ops :: "'m IsolationForest_ops" and m0 :: 'm and calls :: "monitor_call list"
  defines "s \<equiv> run_monitor ops (init_monitor m0) calls"
  shows "high_risk_ips (get_security_summary s now) =
           card {ip. 50 < length (dd_get (ip_request_times s) ip [])}"
proof -
  have "distinct (map fst (ip_request_times (init_monitor m0)))"
    by (simp add: init_monitor_def)
  then have "distinct (map fst (ip_request_times s))"
    unfolding s_def by (rule distinct_keys_run)
  then show ?thesis by (rule high_risk_ips_card)
qed

text \<open>
  The claim as stated prunes at query time. After the 51st request of the busy client at
  time 0, a summary taken at time 1000 still reports one high-risk client, while no
  window pruned to the trailing 60 seconds has any entry left.
\<close>

theorem high_risk_pruned_counterexample:
  "high_risk_ips (get_security_summary
      (snd (analyze_request envelope_ops busy_monitor admin_error_request 0)) 1000) = 1 \<and>
   spec_high_activity_count
      (snd (analyze_request envelope_ops busy_monitor admin_error_request 0)) 1000 = 0"
  unfolding busy_monitor_eq by code_simp

section \<open>The metrics detector over call sequences\<close>








section \<open>Training on a small batch\<close>




end
